theory Spec2Isabelle
  imports Main "HOL-Library.Sublist"
begin

section \<open>JavaScript strings and arrays\<close>

text \<open>
  A JavaScript string is a sequence of UTF-16 code units. It is modelled as a
  \<^typ>\<open>string\<close>, one \<^typ>\<open>char\<close> per code unit, so the model covers the
  messages whose code units are all below 256 (the Latin-1 range, which holds
  every literal of \<^verbatim>\<open>chat.js\<close>). The list functions below are polymorphic in
  the code unit.
\<close>

datatype js_error = TypeError

text \<open>\<^verbatim>\<open>s.includes(sub)\<close>: \<open>sub\<close> occurs in \<open>s\<close> as a contiguous run.\<close>

fun includes_js :: "'a list \<Rightarrow> 'a list \<Rightarrow> bool" where
  "includes_js [] sub = (sub = [])"
| "includes_js (c # s) sub = (prefix sub (c # s) \<or> includes_js s sub)"

text \<open>
  \<^verbatim>\<open>s.split(sep)\<close> with a string separator: the pieces between the
  occurrences of \<open>sep\<close>, found from the left and not overlapping; always at
  least one piece when \<open>sep\<close> is not empty. \<open>splitFrom sep piece s\<close> scans
  \<open>s\<close> with \<open>piece\<close> the text read since the last separator.
\<close>

function splitFrom :: "'a list \<Rightarrow> 'a list \<Rightarrow> 'a list \<Rightarrow> 'a list list" where
  "splitFrom sep piece [] = [piece]"
| "splitFrom sep piece (c # s) =
     (if sep \<noteq> [] \<and> prefix sep (c # s)
      then piece # splitFrom sep [] (drop (length sep) (c # s))
      else splitFrom sep (piece @ [c]) s)"
  by pat_completeness auto
termination
  by (relation "measure (\<lambda>(sep, piece, s). length s)") auto

definition split_js :: "'a list \<Rightarrow> 'a list \<Rightarrow> 'a list list" where
  "split_js s sep = (if sep = [] then map (\<lambda>c. [c]) s else splitFrom sep [] s)"

text \<open>
  \<^verbatim>\<open>s.split(sep, limit)\<close> splits the whole string and keeps the first
  \<open>limit\<close> pieces: the text after piece \<open>limit\<close> is not kept.
\<close>

definition split_limit :: "'a list \<Rightarrow> 'a list \<Rightarrow> nat \<Rightarrow> 'a list list" where
  "split_limit s sep limit = take limit (split_js s sep)"

text \<open>
  Reading an array by position, as the destructuring \<^verbatim>\<open>const [a, b] = xs\<close>
  does: a missing position is \<^verbatim>\<open>undefined\<close>, here \<open>None\<close>.
\<close>

definition item :: "'a list \<Rightarrow> nat \<Rightarrow> 'a option" where
  "item xs i = (if i < length xs then Some (xs ! i) else None)"

text \<open>Interpolation \<^verbatim>\<open>${x}\<close> in a template literal.\<close>

definition interpolate :: "string option \<Rightarrow> string" where
  "interpolate x = (case x of None \<Rightarrow> ''undefined'' | Some s \<Rightarrow> s)"

text \<open>
  White space and line terminators of ECMAScript below 256: what
  \<^verbatim>\<open>trim()\<close> strips and what \<^verbatim>\<open>\s\<close> matches.
\<close>

definition isWhiteSpace :: "char \<Rightarrow> bool" where
  "isWhiteSpace c \<longleftrightarrow>
     c \<in> set [CHR 0x09, CHR 0x0A, CHR 0x0B, CHR 0x0C, CHR 0x0D, CHR 0x20, CHR 0xA0]"

definition trim :: "string \<Rightarrow> string" where
  "trim s = rev (dropWhile isWhiteSpace (rev (dropWhile isWhiteSpace s)))"

text \<open>\<^verbatim>\<open>xs.join(sep)\<close> on an array of strings.\<close>

fun join :: "string list \<Rightarrow> string \<Rightarrow> string" where
  "join [] sep = []"
| "join [x] sep = x"
| "join (x # y # ys) sep = x @ sep @ join (y # ys) sep"

section \<open>Escaping\<close>

text \<open>
  \<^verbatim>\<open>escapeHtml\<close> returns the empty string for a value that is not a string
  (here \<open>None\<close>); for a string it stores the text in a fresh element's
  \<^verbatim>\<open>textContent\<close> and reads \<^verbatim>\<open>innerHTML\<close> back. The browser's
  serialisation of a text node replaces the ampersand, the no-break space and
  the two angle brackets by character references and keeps every other code
  unit.
\<close>

definition escapeChar :: "char \<Rightarrow> string" where
  "escapeChar c =
     (if c = CHR ''&'' then ''&amp;''
      else if c = CHR 0xA0 then ''&nbsp;''
      else if c = CHR ''<'' then ''&lt;''
      else if c = CHR ''>'' then ''&gt;''
      else [c])"

definition escapeHtml :: "string option \<Rightarrow> string" where
  "escapeHtml html = (case html of None \<Rightarrow> [] | Some s \<Rightarrow> concat (map escapeChar s))"

section \<open>Email mentions\<close>

text \<open>
  The second branch of \<^verbatim>\<open>formatEmailSelectionMessage\<close> replaces every match of
  \<^verbatim>\<open>/([A-Za-z\s]+)\s+\(([a-zA-Z0-9._%+-]+@[a-zA-Z0-9.-]+\.[a-zA-Z]{2,})\)/g\<close>.
  The character classes:
\<close>

definition isAlpha :: "char \<Rightarrow> bool" where
  "isAlpha c \<longleftrightarrow>
     (let n = (of_char c :: nat) in (65 \<le> n \<and> n \<le> 90) \<or> (97 \<le> n \<and> n \<le> 122))"

definition isDigit :: "char \<Rightarrow> bool" where
  "isDigit c \<longleftrightarrow> (let n = (of_char c :: nat) in 48 \<le> n \<and> n \<le> 57)"

definition isNameChar :: "char \<Rightarrow> bool" where
  "isNameChar c \<longleftrightarrow> isAlpha c \<or> isWhiteSpace c"

definition isLocalChar :: "char \<Rightarrow> bool" where
  "isLocalChar c \<longleftrightarrow> isAlpha c \<or> isDigit c \<or> c \<in> set ''._%+-''"

definition isDomainChar :: "char \<Rightarrow> bool" where
  "isDomainChar c \<longleftrightarrow> isAlpha c \<or> isDigit c \<or> c \<in> set ''.-''"

text \<open>
  \<^verbatim>\<open>[a-zA-Z0-9.-]+\.[a-zA-Z]{2,}\<close> against a whole run \<open>r\<close> of domain
  characters: the dot of the pattern can only be the last dot of \<open>r\<close>, with
  something before it and at least two letters, and only letters, after it.
\<close>

definition isDomain :: "string \<Rightarrow> bool" where
  "isDomain r \<longleftrightarrow>
     (let tld = rev (takeWhile (\<lambda>c. c \<noteq> CHR ''.'') (rev r));
          host = rev (drop 1 (dropWhile (\<lambda>c. c \<noteq> CHR ''.'') (rev r)))
      in CHR ''.'' \<in> set r \<and> host \<noteq> [] \<and> 2 \<le> length tld \<and> list_all isAlpha tld)"

text \<open>
  A match of the pattern at the start of \<open>s\<close>, as the backtracking matcher
  finds it: the three results are group 1, group 2 and the text after the
  match. The first class contains the white space and none of the characters
  that follow it in the pattern, so the opening parenthesis must end the
  longest run \<open>run\<close> of name characters, the greedy group 1 is \<open>run\<close>
  without its last character and that character is the white space of
  \<^verbatim>\<open>\s+\<close>. In the same way the local part is the longest run of its class
  and ends at the \<^verbatim>\<open>@\<close>, and the domain is the longest run of its class and
  ends at the closing parenthesis.
\<close>

definition matchEmailMention :: "string \<Rightarrow> (string \<times> string \<times> string) option" where
  "matchEmailMention s =
     (let run = takeWhile isNameChar s in
      if 2 \<le> length run \<and> isWhiteSpace (last run) then
        (case dropWhile isNameChar s of
           [] \<Rightarrow> None
         | p # t \<Rightarrow>
             if p \<noteq> CHR ''('' then None
             else
               (let local = takeWhile isLocalChar t in
                if local = [] then None
                else
                  (case dropWhile isLocalChar t of
                     [] \<Rightarrow> None
                   | a # u \<Rightarrow>
                       if a \<noteq> CHR ''@'' then None
                       else
                         (let r = takeWhile isDomainChar u in
                          case dropWhile isDomainChar u of
                            [] \<Rightarrow> None
                          | q # rest \<Rightarrow>
                              if q = CHR '')'' \<and> isDomain r
                              then Some (butlast run, local @ ''@'' @ r, rest)
                              else None))))
      else None)"

definition emailMentionMarkup :: "string \<Rightarrow> string \<Rightarrow> string" where
  \<open>emailMentionMarkup g1 g2 =
     ''<span class="text-blue-700 font-medium">'' @ g1 @
     ''</span> <span class="text-blue-500 text-sm">('' @ g2 @ '')</span>''\<close>

lemma dropWhile_length_le: "length (dropWhile P xs) \<le> length xs"
  by (induction xs) auto

lemma matchEmailMention_shorter:
  assumes "matchEmailMention s = Some (g1, g2, rest)"
  shows "length rest < length s"
proof -
  from assms obtain p t a u q where
    s: "dropWhile isNameChar s = p # t" and
    t: "dropWhile isLocalChar t = a # u" and
    u: "dropWhile isDomainChar u = q # rest"
    by (auto simp: matchEmailMention_def Let_def split: if_splits list.splits)
  have "length rest < length u"
    using dropWhile_length_le [of isDomainChar u] u by simp
  also have "length u < length t"
    using dropWhile_length_le [of isLocalChar t] t by simp
  also have "length t < length s"
    using dropWhile_length_le [of isNameChar s] s by simp
  finally show ?thesis .
qed

text \<open>
  \<^verbatim>\<open>message.replace(pattern, replacement)\<close> with the global flag: the leftmost
  match is replaced and the search goes on after it; text outside the matches
  is copied.
\<close>

function replaceEmailMentions :: "string \<Rightarrow> string" where
  "replaceEmailMentions [] = []"
| "replaceEmailMentions (c # s) =
     (case matchEmailMention (c # s) of
        None \<Rightarrow> c # replaceEmailMentions s
      | Some (g1, g2, rest) \<Rightarrow> emailMentionMarkup g1 g2 @ replaceEmailMentions rest)"
  by pat_completeness auto
termination
  by (relation "measure length") (auto dest: matchEmailMention_shorter)

section \<open>The prompt classifier and the selection widget builder\<close>

definition contactsMarker :: string where
  "contactsMarker = ''Multiple contacts found for''"

definition selectMarker :: string where
  "selectMarker = ''Please select one or more by number''"

text \<open>The test of the first branch of \<^verbatim>\<open>formatEmailSelectionMessage\<close>.\<close>

definition isSelectionMessage :: "string \<Rightarrow> bool" where
  "isSelectionMessage message \<longleftrightarrow>
     includes_js message contactsMarker \<and> includes_js message selectMarker"

text \<open>The test of its second branch.\<close>

definition isEmailMessage :: "string \<Rightarrow> bool" where
  "isEmailMessage message \<longleftrightarrow>
     includes_js message ''@'' \<and> includes_js message ''('' \<and> includes_js message '')''"

text \<open>
  \<^verbatim>\<open>const [introText, optionsText] = message.split(...)\<close>: the first two
  pieces of the split, each \<open>None\<close> when the split has no such piece.
\<close>

definition introText :: "string \<Rightarrow> string option" where
  "introText message = item (split_js message selectMarker) 0"

definition optionsText :: "string \<Rightarrow> string option" where
  "optionsText message = item (split_js message selectMarker) 1"

definition formattedIntro :: "string option \<Rightarrow> string" where
  \<open>formattedIntro intro =
     ''<p class="mb-2">'' @ interpolate intro @
     '' Please select one or more by number (e.g., "1", "2", "1 and 2", or "all"):</p>''\<close>

text \<open>
  \<^verbatim>\<open>const [number, details] = option.split('. ', 2)\<close> for one line of the
  option block.
\<close>

definition optionNumber :: "string \<Rightarrow> string option" where
  "optionNumber option = item (split_limit option ''. '' 2) 0"

definition optionDetails :: "string \<Rightarrow> string option" where
  "optionDetails option = item (split_limit option ''. '' 2) 1"

text \<open>What one round of the \<^verbatim>\<open>forEach\<close> loop appends: one option control.\<close>

definition optionMarkup :: "string \<Rightarrow> string" where
  \<open>optionMarkup option =
     ''\<newline>                    <button class="email-option text-left bg-blue-50 hover:bg-blue-100 py-2 px-3 rounded-md transition-colors" \<newline>                            data-number="'' @
     interpolate (optionNumber option) @
     ''">\<newline>                        <label class="flex items-center cursor-pointer">\<newline>                            <input type="checkbox" class="mr-2 h-4 w-4 text-blue-600 focus:ring-blue-500 rounded">\<newline>                            <span class="font-semibold text-blue-600">'' @
     interpolate (optionNumber option) @
     ''.</span> '' @
     interpolate (optionDetails option) @
     ''\<newline>                        </label>\<newline>                    </button>\<newline>                ''\<close>

text \<open>The select-all control and the confirm control, appended once.\<close>

definition aggregateMarkup :: string where
  \<open>aggregateMarkup =
     ''\<newline>                <div class="mt-2 flex justify-between">\<newline>                    <button id="select-all" class="text-blue-600 text-sm hover:text-blue-800">\<newline>                        Select All\<newline>                    </button>\<newline>                    <button id="submit-selection" class="bg-blue-600 text-white text-sm py-1 px-3 rounded hover:bg-blue-700">\<newline>                        Confirm Selection\<newline>                    </button>\<newline>                </div>\<newline>            ''\<close>

text \<open>
  \<^verbatim>\<open>optionsText.trim().split('\n')\<close>: the lines the loop runs over. Calling
  \<^verbatim>\<open>trim\<close> on \<^verbatim>\<open>undefined\<close> throws.
\<close>

definition optionLines :: "string \<Rightarrow> js_error + string list" where
  "optionLines message =
     (case optionsText message of
        None \<Rightarrow> Inl TypeError
      | Some block \<Rightarrow> Inr (split_js (trim block) [CHR 0x0A]))"

definition formattedOptions :: "string list \<Rightarrow> string" where
  \<open>formattedOptions options =
     foldl (\<lambda>acc option. acc @ optionMarkup option) ''<div class="grid gap-2 mt-2">'' options
     @ aggregateMarkup @ ''</div>''\<close>

text \<open>
  \<^verbatim>\<open>formatEmailSelectionMessage(message)\<close>. The argument is \<open>Some\<close> string, or
  \<open>None\<close> for a value on which the first \<^verbatim>\<open>message.includes\<close> throws
  (\<^verbatim>\<open>undefined\<close>, \<^verbatim>\<open>null\<close>, a number, a boolean, a plain object).
\<close>

definition formatEmailSelectionMessage :: "string option \<Rightarrow> js_error + string" where
  "formatEmailSelectionMessage m =
     (case m of
        None \<Rightarrow> Inl TypeError
      | Some message \<Rightarrow>
          if isSelectionMessage message then
            (case optionLines message of
               Inl e \<Rightarrow> Inl e
             | Inr options \<Rightarrow>
                 Inr (formattedIntro (introText message) @ formattedOptions options))
          else if isEmailMessage message then Inr (replaceEmailMentions message)
          else Inr (escapeHtml (Some message)))"

text \<open>
  The option controls of the markup, in document order: the
  \<^verbatim>\<open>data-number\<close> each round of the loop writes, together with the details it
  shows. A message of another kind has none.
\<close>

definition optionControls :: "string \<Rightarrow> (string \<times> string) list" where
  "optionControls message =
     (if isSelectionMessage message then
        (case optionLines message of
           Inl e \<Rightarrow> []
         | Inr options \<Rightarrow>
             map (\<lambda>option. (interpolate (optionNumber option),
                             interpolate (optionDetails option))) options)
      else [])"

section \<open>The page state\<close>

text \<open>
  The part of the document and of the script's variables that the handlers
  read and write. \<open>chat\<close> is the list of children of the chat container;
  a turn holds the text spliced into its bubble. \<open>controls\<close> is what
  \<^verbatim>\<open>querySelectorAll('.email-option input[type="checkbox"]')\<close> ranges over:
  the option controls of every widget in the chat container, in document
  order, each with its \<^verbatim>\<open>data-number\<close> and the state of its checkbox. The
  controls of a bot turn are those its markup writes (\<open>optionControls\<close>),
  which is what the browser builds from a message without markup characters of
  its own. \<open>selectedOptions\<close> is the \<^verbatim>\<open>Set\<close> of
  \<^verbatim>\<open>setupEmailOptionListeners\<close>, as the list of its members in insertion
  order. \<open>alerts\<close> and \<open>requests\<close> log the calls of \<^verbatim>\<open>alert\<close> and
  \<^verbatim>\<open>fetch\<close>. The entity panel is kept as its visibility, the groups it shows
  and the completion mark; the styling of a single value is left out.
\<close>

record option_control =
  data_number :: string
  checked :: bool

datatype turn = UserTurn string | BotTurn string | TypingIndicator

datatype request = PostMessage string | PostReset

record state =
  chat :: "turn list"
  controls :: "option_control list"
  selectedOptions :: "string list"
  alerts :: "string list"
  requests :: "request list"
  panelHidden :: bool
  panelGroups :: "(string \<times> string list) list"
  panelComplete :: bool

text \<open>\<^verbatim>\<open>Set.prototype.add\<close> and \<^verbatim>\<open>Set.prototype.delete\<close>.\<close>

definition setAdd :: "string list \<Rightarrow> string \<Rightarrow> string list" where
  "setAdd xs x = (if x \<in> set xs then xs else xs @ [x])"

definition setDelete :: "string list \<Rightarrow> string \<Rightarrow> string list" where
  "setDelete xs x = removeAll x xs"

definition addUserMessage :: "state \<Rightarrow> string \<Rightarrow> state" where
  "addUserMessage st message = st\<lparr>chat := chat st @ [UserTurn (escapeHtml (Some message))]\<rparr>"

definition renderedControls :: "string option \<Rightarrow> option_control list" where
  "renderedControls m =
     (case m of
        None \<Rightarrow> []
      | Some message \<Rightarrow>
          map (\<lambda>(number, details). \<lparr>data_number = number, checked = False\<rparr>)
            (optionControls message))"

text \<open>
  \<^verbatim>\<open>addBotMessage\<close> formats the message before it touches the document, so
  when the formatting throws the state is the caller's.
\<close>

definition addBotMessage :: "state \<Rightarrow> string option \<Rightarrow> js_error + state" where
  "addBotMessage st m =
     (case formatEmailSelectionMessage m of
        Inl e \<Rightarrow> Inl e
      | Inr formattedMessage \<Rightarrow>
          Inr (st\<lparr>chat := chat st @ [BotTurn formattedMessage],
                  controls := controls st @ renderedControls m\<rparr>))"

text \<open>The call of \<^verbatim>\<open>fetch\<close> in \<^verbatim>\<open>sendMessage\<close>; its handlers run later.\<close>

definition sendMessage :: "state \<Rightarrow> string \<Rightarrow> state" where
  "sendMessage st message = st\<lparr>requests := requests st @ [PostMessage message]\<rparr>"

text \<open>
  \<^verbatim>\<open>document.getElementById('typing-indicator')\<close> finds the first indicator
  of the document, which \<^verbatim>\<open>remove()\<close> deletes.
\<close>

definition removeTypingIndicator :: "state \<Rightarrow> state" where
  "removeTypingIndicator st = st\<lparr>chat := remove1 TypingIndicator (chat st)\<rparr>"

definition updateEntityPanel ::
  "state \<Rightarrow> (string \<times> string list) list option \<Rightarrow> bool \<Rightarrow> state" where
  "updateEntityPanel st entities isComplete =
     (case entities of
        None \<Rightarrow> st
      | Some groups \<Rightarrow>
          if groups = [] then st
          else st\<lparr>panelHidden := False,
                  panelGroups := filter (\<lambda>(type, values). values \<noteq> []) groups,
                  panelComplete := isComplete\<rparr>)"

section \<open>The backend calls\<close>

text \<open>
  How a call of \<^verbatim>\<open>fetch\<close> followed by \<^verbatim>\<open>response.json()\<close> ends: the
  request fails and the promise rejects; or a response of some status arrives
  whose body is not JSON, and \<^verbatim>\<open>json()\<close> rejects; or a response of some
  status arrives with a JSON body. The status is carried along: the handlers
  never read it.
\<close>

datatype 'a fetch_outcome = NetworkError | InvalidBody nat | Body nat 'a

text \<open>
  The body of the message call as the handler reads it. \<open>response\<close> is
  \<open>Some\<close> string, or \<open>None\<close> when reading \<^verbatim>\<open>data.response\<close> throws or
  gives a value on which \<^verbatim>\<open>message.includes\<close> throws (the body is
  \<^verbatim>\<open>null\<close>; the field is absent or \<^verbatim>\<open>null\<close>, a number, a boolean or a
  plain object); an array there is outside the model.
  \<open>entities\<close> is \<open>None\<close> when the field is absent or \<^verbatim>\<open>null\<close>, and
  otherwise the entries of a mapping from labels to arrays of strings, as the
  backend's contract has it; \<open>complete\<close> is the truth value of the field.
\<close>

record message_data =
  response :: "string option"
  entities :: "(string \<times> string list) list option"
  complete :: bool

definition messageApology :: string where
  "messageApology = ''Sorry, there was an error processing your message. Please try again.''"

definition resetApology :: string where
  "resetApology = ''Sorry, there was an error resetting the chat. Please try again.''"

text \<open>
  The \<^verbatim>\<open>catch\<close> handler of \<^verbatim>\<open>sendMessage\<close>. An error thrown inside it
  would leave the state as it is at that point.
\<close>

definition messageCatch :: "state \<Rightarrow> state" where
  "messageCatch st =
     (let st1 = removeTypingIndicator st in
      case addBotMessage st1 (Some messageApology) of Inl e \<Rightarrow> st1 | Inr st2 \<Rightarrow> st2)"

text \<open>
  The \<^verbatim>\<open>then\<close> handler of \<^verbatim>\<open>sendMessage\<close>: the state it leaves, and the
  error when it throws.
\<close>

definition messageThen :: "state \<Rightarrow> message_data \<Rightarrow> state \<times> js_error option" where
  "messageThen st data =
     (let st1 = removeTypingIndicator st in
      case addBotMessage st1 (response data) of
        Inl e \<Rightarrow> (st1, Some e)
      | Inr st2 \<Rightarrow> (updateEntityPanel st2 (entities data) (complete data), None))"

definition messageSettled :: "state \<Rightarrow> message_data fetch_outcome \<Rightarrow> state" where
  "messageSettled st outcome =
     (case outcome of
        NetworkError \<Rightarrow> messageCatch st
      | InvalidBody status \<Rightarrow> messageCatch st
      | Body status data \<Rightarrow>
          (case messageThen st data of
             (st1, None) \<Rightarrow> st1
           | (st1, Some e) \<Rightarrow> messageCatch st1))"

text \<open>The handlers of the reset call; its body is read for \<^verbatim>\<open>response\<close> only.\<close>

definition resetCatch :: "state \<Rightarrow> state" where
  "resetCatch st =
     (case addBotMessage st (Some resetApology) of Inl e \<Rightarrow> st | Inr st1 \<Rightarrow> st1)"

definition resetThen :: "state \<Rightarrow> string option \<Rightarrow> state \<times> js_error option" where
  "resetThen st data_response =
     (let st1 = st\<lparr>chat := [], controls := []\<rparr> in
      case addBotMessage st1 data_response of
        Inl e \<Rightarrow> (st1, Some e)
      | Inr st2 \<Rightarrow> (st2\<lparr>panelHidden := True\<rparr>, None))"

definition resetSettled :: "state \<Rightarrow> string option fetch_outcome \<Rightarrow> state" where
  "resetSettled st outcome =
     (case outcome of
        NetworkError \<Rightarrow> resetCatch st
      | InvalidBody status \<Rightarrow> resetCatch st
      | Body status data_response \<Rightarrow>
          (case resetThen st data_response of
             (st1, None) \<Rightarrow> st1
           | (st1, Some e) \<Rightarrow> resetCatch st1))"

section \<open>The event handlers\<close>

text \<open>
  The delegated click listener of \<^verbatim>\<open>setupEmailOptionListeners\<close> tells its
  targets apart by four tests, taken in this order: a checkbox inside an
  option control, the element with id \<^verbatim>\<open>select-all\<close>, the element with id
  \<^verbatim>\<open>submit-selection\<close>, another element inside an option control. Option
  controls are named by their position in \<open>controls\<close>.
\<close>

datatype click_target =
  Checkbox nat | SelectAll | SubmitSelection | OptionBody nat | Elsewhere

text \<open>
  A click on a checkbox: the browser flips the box before the listeners run,
  so \<^verbatim>\<open>e.target.checked\<close> is the opposite of the state before the click; the
  listener updates the set and calls \<^verbatim>\<open>preventDefault\<close>, and for a cancelled
  click the browser puts the box back as it was. The other branches write
  \<^verbatim>\<open>checkbox.checked\<close> themselves.
\<close>

fun click :: "state \<Rightarrow> click_target \<Rightarrow> state" where
  "click st (Checkbox i) =
     (if i < length (controls st) then
        (let number = data_number (controls st ! i);
             target_checked = \<not> checked (controls st ! i)
         in st\<lparr>selectedOptions :=
                  (if target_checked then setAdd (selectedOptions st) number
                   else setDelete (selectedOptions st) number)\<rparr>)
      else st)"
| "click st SelectAll =
     (let allChecked = list_all checked (controls st)
      in st\<lparr>controls := map (\<lambda>c. c\<lparr>checked := \<not> allChecked\<rparr>) (controls st),
             selectedOptions :=
               foldl (\<lambda>selected c.
                        if \<not> allChecked then setAdd selected (data_number c)
                        else setDelete selected (data_number c))
                     (selectedOptions st) (controls st)\<rparr>)"
| "click st SubmitSelection =
     (if selectedOptions st = [] then
        st\<lparr>alerts := alerts st @ [''Please select at least one contact.'']\<rparr>
      else
        (let selectionText = join (selectedOptions st) '' and ''
         in (sendMessage (addUserMessage st selectionText) selectionText)
              \<lparr>selectedOptions := []\<rparr>))"
| "click st (OptionBody i) =
     (if i < length (controls st) then
        (let checkbox = (controls st ! i)\<lparr>checked := \<not> checked (controls st ! i)\<rparr>;
             number = data_number checkbox
         in st\<lparr>controls := (controls st)[i := checkbox],
                selectedOptions :=
                  (if checked checkbox then setAdd (selectedOptions st) number
                   else setDelete (selectedOptions st) number)\<rparr>)
      else st)"
| "click st Elsewhere = st"

text \<open>The submit listener of the message form, on the text of the input.\<close>

definition submit :: "state \<Rightarrow> string \<Rightarrow> state" where
  "submit st text =
     (let message = trim text in
      if message = [] then st
      else
        (let st1 = addUserMessage st message;
             st2 = st1\<lparr>chat := chat st1 @ [TypingIndicator]\<rparr>
         in sendMessage st2 message))"

text \<open>
  The click listener of the reset button, with the answer to its
  \<^verbatim>\<open>confirm\<close> dialog.
\<close>

definition resetClick :: "state \<Rightarrow> bool \<Rightarrow> state" where
  "resetClick st confirmed =
     (if confirmed then st\<lparr>requests := requests st @ [PostReset]\<rparr> else st)"

datatype event =
    Submit string
  | Click click_target
  | ResetClick bool
  | MessageSettled "message_data fetch_outcome"
  | ResetSettled "string option fetch_outcome"

fun step :: "state \<Rightarrow> event \<Rightarrow> state" where
  "step st (Submit text) = submit st text"
| "step st (Click target) = click st target"
| "step st (ResetClick confirmed) = resetClick st confirmed"
| "step st (MessageSettled outcome) = messageSettled st outcome"
| "step st (ResetSettled outcome) = resetSettled st outcome"

definition run :: "state \<Rightarrow> event list \<Rightarrow> state" where
  "run st events = foldl step st events"

text \<open>The page before the script runs, and after its welcome message.\<close>

definition emptyPage :: state where
  "emptyPage =
     \<lparr>chat = [], controls = [], selectedOptions = [], alerts = [], requests = [],
      panelHidden = True, panelGroups = [], panelComplete = False\<rparr>"

definition welcomeMessage :: string where
  "welcomeMessage = ''Hello! I'' @ [CHR 0x27] @ ''m your scheduling assistant. How can I help you today?''"

definition initialState :: state where
  "initialState =
     (case addBotMessage emptyPage (Some welcomeMessage) of Inl e \<Rightarrow> emptyPage | Inr st \<Rightarrow> st)"



section \<open>Example inputs\<close>

text \<open>The message of the specification's example, with its line breaks.\<close>

definition janePrompt :: string where
  "janePrompt = ''Multiple contacts found for Jane. Please select one or more by number (e.g., ...):\<newline>1. Jane Doe (jane@x.com)\<newline>2. Jane Roe (jane2@x.com)''"

text \<open>
  A prompt whose option block starts on the line after the marker, and the
  page after the backend has answered with it.
\<close>

definition twoOptionPrompt :: string where
  "twoOptionPrompt = ''Multiple contacts found for Jane. Please select one or more by number\<newline>1. Jane Doe (jane@x.com)\<newline>2. Jane Roe (jane2@x.com)''"

definition twoOptionPage :: state where
  "twoOptionPage =
     run initialState
       [MessageSettled (Body 200
          \<lparr>response = Some twoOptionPrompt, entities = None, complete = False\<rparr>)]"

section \<open>Facts about splitting\<close>

lemma includes_js_sublist: "includes_js s sub \<longleftrightarrow> sublist sub s"
  by (induction s) (auto simp: sublist_Cons_right)

lemma splitFrom_no_sep: "\<not> sublist sep s \<Longrightarrow> splitFrom sep piece s = [piece @ s]"
  by (induction s arbitrary: piece) (auto simp: sublist_Cons_right)

lemma not_sublist_butlast:
  assumes "sep \<noteq> []"
  shows "\<not> sublist sep (butlast sep)"
proof
  assume "sublist sep (butlast sep)"
  then have "length sep \<le> length (butlast sep)" by (rule sublist_length_le)
  then have "length sep \<le> length sep - 1" by (simp only: length_butlast)
  moreover have "0 < length sep" using assms by simp
  ultimately show False by arith
qed

text \<open>
  The first piece of a split ends at the first occurrence of the separator,
  and the split goes on behind it.
\<close>

lemma splitFrom_first:
  assumes "sep \<noteq> []" "sublist sep s"
  shows "\<exists>pre post. s = pre @ sep @ post \<and> \<not> sublist sep (pre @ butlast sep)
           \<and> splitFrom sep piece s = (piece @ pre) # splitFrom sep [] post"
  using assms(2)
proof (induction s arbitrary: piece)
  case Nil
  with assms(1) show ?case by simp
next
  case (Cons c s)
  show ?case
  proof (cases "prefix sep (c # s)")
    case True
    then obtain post where post: "c # s = sep @ post" by (auto elim: prefixE)
    have "drop (length sep) (c # s) = post"
      by (simp add: post)
    moreover have "splitFrom sep piece (c # s) =
        piece # splitFrom sep [] (drop (length sep) (c # s))"
      using True assms(1) by (simp only: splitFrom.simps) simp
    ultimately have "splitFrom sep piece (c # s) = piece # splitFrom sep [] post"
      by (simp only:)
    with post not_sublist_butlast [OF assms(1)] show ?thesis
      by (intro exI [of _ "[]"] exI [of _ post]) simp
  next
    case False
    with Cons.prems have "sublist sep s" by (simp add: sublist_Cons_right)
    from Cons.IH [OF this, of "piece @ [c]"] obtain pre post where
      s: "s = pre @ sep @ post" and
      first: "\<not> sublist sep (pre @ butlast sep)" and
      split: "splitFrom sep (piece @ [c]) s = (piece @ [c] @ pre) # splitFrom sep [] post"
      by auto
    have "\<not> prefix sep (c # pre @ butlast sep)"
    proof
      assume "prefix sep (c # pre @ butlast sep)"
      then have "prefix sep ((c # pre @ butlast sep) @ [last sep] @ post)"
        by (rule prefix_prefix)
      moreover have "(c # pre @ butlast sep) @ [last sep] @ post = c # s"
        using s assms(1) by simp
      ultimately show False using False by simp
    qed
    with first have "\<not> sublist sep ((c # pre) @ butlast sep)"
      by (simp add: sublist_Cons_right)
    moreover have "c # s = (c # pre) @ sep @ post" using s by simp
    moreover have "splitFrom sep piece (c # s) = (piece @ (c # pre)) # splitFrom sep [] post"
      using False split by simp
    ultimately show ?thesis by blast
  qed
qed

text \<open>
  The first two pieces of a split of a string that holds the separator: the
  text before its first occurrence, and the text from there to the next
  occurrence, or to the end when there is none.
\<close>

lemma split_first_two:
  assumes "sep \<noteq> []" "sublist sep s"
  shows "\<exists>pre block rest. s = pre @ sep @ block @ rest
           \<and> \<not> sublist sep (pre @ butlast sep)
           \<and> (rest = [] \<and> \<not> sublist sep block
                \<or> prefix sep rest \<and> \<not> sublist sep (block @ butlast sep))
           \<and> item (split_js s sep) 0 = Some pre
           \<and> item (split_js s sep) 1 = Some block"
proof -
  from splitFrom_first [OF assms, of "[]"] obtain pre post where
    s: "s = pre @ sep @ post" and
    first: "\<not> sublist sep (pre @ butlast sep)" and
    split: "splitFrom sep [] s = pre # splitFrom sep [] post"
    by auto
  show ?thesis
  proof (cases "sublist sep post")
    case False
    then have "splitFrom sep [] post = [post]" by (simp add: splitFrom_no_sep)
    with split assms(1) have
      "item (split_js s sep) 0 = Some pre" "item (split_js s sep) 1 = Some post"
      by (simp_all add: split_js_def item_def)
    with s first False show ?thesis
      by (intro exI [of _ pre] exI [of _ post] exI [of _ "[]"]) simp
  next
    case True
    from splitFrom_first [OF assms(1) True, of "[]"] obtain block post2 where
      post: "post = block @ sep @ post2" and
      second: "\<not> sublist sep (block @ butlast sep)" and
      split2: "splitFrom sep [] post = block # splitFrom sep [] post2"
      by auto
    from split split2 assms(1) have
      "item (split_js s sep) 0 = Some pre" "item (split_js s sep) 1 = Some block"
      by (simp_all add: split_js_def item_def)
    with s first second post show ?thesis
      by (intro exI [of _ pre] exI [of _ block] exI [of _ "sep @ post2"]) simp
  qed
qed

lemma item_take: "i < n \<Longrightarrow> item (take n xs) i = item xs i"
  by (simp add: item_def)

lemma optionsText_defined:
  assumes "isSelectionMessage message"
  shows "\<exists>block. optionsText message = Some block"
proof -
  from assms have "sublist selectMarker message"
    by (simp add: isSelectionMessage_def includes_js_sublist)
  moreover have "selectMarker \<noteq> []" by (simp add: selectMarker_def)
  ultimately show ?thesis
    using split_first_two [of selectMarker message] by (auto simp: optionsText_def)
qed

text \<open>Formatting a string never throws.\<close>

lemma format_no_error: "\<exists>html. formatEmailSelectionMessage (Some message) = Inr html"
proof (cases "isSelectionMessage message")
  case True
  from optionsText_defined [OF this] show ?thesis
    using True by (auto simp: formatEmailSelectionMessage_def optionLines_def)
next
  case False
  then show ?thesis by (simp add: formatEmailSelectionMessage_def)
qed

text \<open>The loop that builds the markup appends one option control per line.\<close>

lemma formattedOptions_concat:
  \<open>formattedOptions options =
     ''<div class="grid gap-2 mt-2">'' @ concat (map optionMarkup options)
     @ aggregateMarkup @ ''</div>''\<close>
proof -
  have "foldl (\<lambda>acc option. acc @ optionMarkup option) acc options =
      acc @ concat (map optionMarkup options)" for acc
    by (induction options arbitrary: acc) auto
  then show ?thesis by (simp add: formattedOptions_def)
qed

lemma parse_delimited_line:
  assumes "sublist ''. '' line"
  shows "\<exists>number details rest.
           line = number @ ''. '' @ details @ rest
           \<and> \<not> sublist ''. '' (number @ ''.'')
           \<and> (rest = [] \<and> \<not> sublist ''. '' details
                \<or> prefix ''. '' rest \<and> \<not> sublist ''. '' (details @ ''.''))
           \<and> optionNumber line = Some number
           \<and> optionDetails line = Some details"
proof -
  have "''. '' \<noteq> []" by simp
  from split_first_two [OF this assms] show ?thesis
    by (simp add: optionNumber_def optionDetails_def split_limit_def item_take)
qed

section \<open>The selection widget builder\<close>

text \<open>
  Claim C1. For the example message of the specification the claim expects two
  option controls, with ids 1 and 2. The builder splits at the marker, so the
  rest of the marker's line, \<^verbatim>\<open>(e.g., ...):\<close>, is the first line of the option
  block: the loop emits three option controls, the first with that text as its
  id and \<^verbatim>\<open>undefined\<close> as its details, followed by the select-all and
  the confirm control.
\<close>

theorem jane_prompt_controls:
  "optionControls janePrompt =
     [(''(e.g., ...):'', ''undefined''), (''1'', ''Jane Doe (jane@x.com)''),
      (''2'', ''Jane Roe (jane2@x.com)'')]
   \<and> formatEmailSelectionMessage (Some janePrompt) =
       Inr (formattedIntro (Some ''Multiple contacts found for Jane. '')
            @ formattedOptions
                [''(e.g., ...):'', ''1. Jane Doe (jane@x.com)'', ''2. Jane Roe (jane2@x.com)''])"
  by code_simp

text \<open>
  Claim C2. The claim has a line of the option block without the delimiter
  dropped: no option control for it. The loop has no such step. The second
  line of this option block has no delimiter, and the markup holds a second
  option control, with the whole line as its id and \<^verbatim>\<open>undefined\<close> as
  its details. No error is raised, as the claim says.
\<close>

theorem undelimited_line_kept:
  \<open>optionLines
     ''Multiple contacts found for Jane. Please select one or more by number\<newline>1. Jane Doe\<newline>Jane Roe''
     = Inr [''1. Jane Doe'', ''Jane Roe'']
   \<and> \<not> includes_js ''Jane Roe'' ''. ''
   \<and> optionNumber ''Jane Roe'' = Some ''Jane Roe''
   \<and> optionDetails ''Jane Roe'' = None
   \<and> optionControls
       ''Multiple contacts found for Jane. Please select one or more by number\<newline>1. Jane Doe\<newline>Jane Roe''
       = [(''1'', ''Jane Doe''), (''Jane Roe'', ''undefined'')]
   \<and> formatEmailSelectionMessage (Some
       ''Multiple contacts found for Jane. Please select one or more by number\<newline>1. Jane Doe\<newline>Jane Roe'')
       = Inr (formattedIntro (Some ''Multiple contacts found for Jane. '')
              @ ''<div class="grid gap-2 mt-2">''
              @ optionMarkup ''1. Jane Doe'' @ optionMarkup ''Jane Roe''
              @ aggregateMarkup @ ''</div>'')\<close>
  by code_simp

section \<open>The prompt classifier\<close>

text \<open>
  Claim C6, as amended. A message is treated as a selection prompt exactly
  when it holds both markers. Then the intro is the text before the first
  occurrence of the select marker, and the option block is the text after
  that occurrence up to the next occurrence of the marker, or up to the end of
  the message when the marker occurs once; the markup is built from these
  two. A message of another kind goes to one of the other two branches.
\<close>

theorem classifier_split:
  "(isSelectionMessage message \<longleftrightarrow>
      sublist contactsMarker message \<and> sublist selectMarker message)
   \<and> (isSelectionMessage message \<longrightarrow>
        (\<exists>intro block rest.
           message = intro @ selectMarker @ block @ rest
           \<and> \<not> sublist selectMarker (intro @ butlast selectMarker)
           \<and> (rest = [] \<and> \<not> sublist selectMarker block
                \<or> prefix selectMarker rest
                  \<and> \<not> sublist selectMarker (block @ butlast selectMarker))
           \<and> introText message = Some intro
           \<and> optionsText message = Some block
           \<and> formatEmailSelectionMessage (Some message) =
               Inr (formattedIntro (Some intro)
                    @ formattedOptions (split_js (trim block) [CHR 0x0A]))))
   \<and> (\<not> isSelectionMessage message \<longrightarrow>
        formatEmailSelectionMessage (Some message) =
          Inr (if isEmailMessage message then replaceEmailMentions message
               else escapeHtml (Some message)))"
proof (intro conjI impI)
  show "isSelectionMessage message \<longleftrightarrow>
      sublist contactsMarker message \<and> sublist selectMarker message"
    by (simp add: isSelectionMessage_def includes_js_sublist)
next
  assume sel: "isSelectionMessage message"
  then have "sublist selectMarker message"
    by (simp add: isSelectionMessage_def includes_js_sublist)
  moreover have "selectMarker \<noteq> []" by (simp add: selectMarker_def)
  ultimately obtain intro block rest where
    parts: "message = intro @ selectMarker @ block @ rest"
      "\<not> sublist selectMarker (intro @ butlast selectMarker)"
      "rest = [] \<and> \<not> sublist selectMarker block
         \<or> prefix selectMarker rest \<and> \<not> sublist selectMarker (block @ butlast selectMarker)"
      "item (split_js message selectMarker) 0 = Some intro"
      "item (split_js message selectMarker) 1 = Some block"
    using split_first_two [of selectMarker message] by blast
  have "formatEmailSelectionMessage (Some message) =
      Inr (formattedIntro (Some intro) @ formattedOptions (split_js (trim block) [CHR 0x0A]))"
    using sel parts(4,5)
    by (simp add: formatEmailSelectionMessage_def optionLines_def introText_def optionsText_def)
  with parts show "\<exists>intro block rest.
           message = intro @ selectMarker @ block @ rest
           \<and> \<not> sublist selectMarker (intro @ butlast selectMarker)
           \<and> (rest = [] \<and> \<not> sublist selectMarker block
                \<or> prefix selectMarker rest
                  \<and> \<not> sublist selectMarker (block @ butlast selectMarker))
           \<and> introText message = Some intro
           \<and> optionsText message = Some block
           \<and> formatEmailSelectionMessage (Some message) =
               Inr (formattedIntro (Some intro)
                    @ formattedOptions (split_js (trim block) [CHR 0x0A]))"
    unfolding introText_def optionsText_def by blast
next
  assume "\<not> isSelectionMessage message"
  then show "formatEmailSelectionMessage (Some message) =
          Inr (if isEmailMessage message then replaceEmailMentions message
               else escapeHtml (Some message))"
    by (simp add: formatEmailSelectionMessage_def)
qed

text \<open>
  The amended claim C6 at the two-option prompt, which is a selection prompt,
  and at a greeting, which is not.
\<close>

theorem classifier_split_witness:
  "isSelectionMessage twoOptionPrompt
   \<and> (\<exists>intro block rest.
         twoOptionPrompt = intro @ selectMarker @ block @ rest
         \<and> introText twoOptionPrompt = Some intro
         \<and> optionsText twoOptionPrompt = Some block)
   \<and> \<not> isSelectionMessage ''Hello <there>''
   \<and> formatEmailSelectionMessage (Some ''Hello <there>'') = Inr ''Hello &lt;there&gt;''"
proof -
  have h: "isSelectionMessage twoOptionPrompt" by code_simp
  have n: "\<not> isSelectionMessage ''Hello <there>''" by code_simp
  have e: "\<not> isEmailMessage ''Hello <there>''" by code_simp
  have x: "escapeHtml (Some ''Hello <there>'') = ''Hello &lt;there&gt;''" by code_simp
  from classifier_split [of twoOptionPrompt] h have
    "\<exists>intro block rest.
         twoOptionPrompt = intro @ selectMarker @ block @ rest
         \<and> introText twoOptionPrompt = Some intro
         \<and> optionsText twoOptionPrompt = Some block"
    by blast
  moreover from classifier_split [of "''Hello <there>''"] n e x have
    "formatEmailSelectionMessage (Some ''Hello <there>'') = Inr ''Hello &lt;there&gt;''"
    by simp
  ultimately show ?thesis using h n by blast
qed

text \<open>
  Claim C6 as stated fails when the marker occurs twice. This message is the
  intro, the marker and a remainder; the option block is not that remainder
  but only its part before the second marker, so the text behind the second
  marker is in neither part. Splitting at the second marker instead does not
  give the intro.
\<close>

theorem classifier_split_counterexample:
  "isSelectionMessage
     ''Multiple contacts found for Al. Please select one or more by number:\<newline>1. Al A\<newline>Please select one or more by number\<newline>2. Al B''
   \<and> ''Multiple contacts found for Al. Please select one or more by number:\<newline>1. Al A\<newline>Please select one or more by number\<newline>2. Al B''
       = ''Multiple contacts found for Al. '' @ selectMarker
         @ '':\<newline>1. Al A\<newline>Please select one or more by number\<newline>2. Al B''
   \<and> introText
       ''Multiple contacts found for Al. Please select one or more by number:\<newline>1. Al A\<newline>Please select one or more by number\<newline>2. Al B''
       = Some ''Multiple contacts found for Al. ''
   \<and> optionsText
       ''Multiple contacts found for Al. Please select one or more by number:\<newline>1. Al A\<newline>Please select one or more by number\<newline>2. Al B''
       = Some '':\<newline>1. Al A\<newline>''
   \<and> optionsText
       ''Multiple contacts found for Al. Please select one or more by number:\<newline>1. Al A\<newline>Please select one or more by number\<newline>2. Al B''
       \<noteq> Some '':\<newline>1. Al A\<newline>Please select one or more by number\<newline>2. Al B''
   \<and> ''Multiple contacts found for Al. Please select one or more by number:\<newline>1. Al A\<newline>Please select one or more by number\<newline>2. Al B''
       = ''Multiple contacts found for Al. Please select one or more by number:\<newline>1. Al A\<newline>''
         @ selectMarker @ ''\<newline>2. Al B''
   \<and> introText
       ''Multiple contacts found for Al. Please select one or more by number:\<newline>1. Al A\<newline>Please select one or more by number\<newline>2. Al B''
       \<noteq> Some ''Multiple contacts found for Al. Please select one or more by number:\<newline>1. Al A\<newline>''"
  by code_simp

section \<open>Escaping of bot messages\<close>

text \<open>A plain message is rendered as its escaped text.\<close>

lemma plain_message_escaped:
  "\<not> isSelectionMessage message \<Longrightarrow> \<not> isEmailMessage message \<Longrightarrow>
   formatEmailSelectionMessage (Some message) = Inr (escapeHtml (Some message))"
  by (simp add: formatEmailSelectionMessage_def)

text \<open>
  Claim C9. The claim has every message escaped before it is put into the
  transcript. A message of the email branch is not: the markup of this
  message reaches the transcript as it came, only the mention at its end is
  wrapped, while \<^verbatim>\<open>escapeHtml\<close> would have turned the angle brackets into
  character references.
\<close>

theorem unescaped_markup:
  "formatEmailSelectionMessage (Some ''<img src=x onerror=alert(1)> Jane (jane@x.com)'')
     = Inr (''<img src=x onerror=alert(1)>'' @ emailMentionMarkup '' Jane'' ''jane@x.com'')
   \<and> escapeHtml (Some ''<img src=x onerror=alert(1)> Jane (jane@x.com)'')
     = ''&lt;img src=x onerror=alert(1)&gt; Jane (jane@x.com)''"
  by code_simp

section \<open>Confirming a selection\<close>

text \<open>
  Claim C3. Confirm with an empty selection set shows the validation message
  and does nothing else: the state after the click is the state before it with
  one more alert, so no call is sent, no turn is added and the selection set
  is what it was.
\<close>

theorem confirm_empty_selection:
  assumes "selectedOptions st = []"
  shows "click st SubmitSelection =
           st\<lparr>alerts := alerts st @ [''Please select at least one contact.'']\<rparr>
    \<and> requests (click st SubmitSelection) = requests st
    \<and> chat (click st SubmitSelection) = chat st
    \<and> selectedOptions (click st SubmitSelection) = selectedOptions st"
  using assms by simp

text \<open>Claim C3 on the page that shows the two-option prompt, nothing checked.\<close>

theorem confirm_empty_selection_witness:
  "selectedOptions twoOptionPage = []
   \<and> alerts (click twoOptionPage SubmitSelection) = [''Please select at least one contact.'']
   \<and> requests (click twoOptionPage SubmitSelection) = []
   \<and> length (chat (click twoOptionPage SubmitSelection)) = 2"
proof -
  have h: "selectedOptions twoOptionPage = []" by code_simp
  have a: "alerts twoOptionPage = []" by code_simp
  have r: "requests twoOptionPage = []" by code_simp
  have c: "length (chat twoOptionPage) = 2" by code_simp
  show ?thesis using confirm_empty_selection [OF h] h a r c by simp
qed



text \<open>
  A run of clicks on checkboxes that are not checked, on options with
  different ids none of which is selected, appends the ids to the selection
  set in the order of the clicks.
\<close>

lemma run_checkbox_clicks:
  assumes "\<forall>i \<in> set picks. i < length (controls st) \<and> \<not> checked (controls st ! i)"
    and "distinct (map (\<lambda>i. data_number (controls st ! i)) picks)"
    and "set (map (\<lambda>i. data_number (controls st ! i)) picks) \<inter> set (selectedOptions st) = {}"
  shows "run st (map (\<lambda>i. Click (Checkbox i)) picks) =
     st\<lparr>selectedOptions := selectedOptions st @ map (\<lambda>i. data_number (controls st ! i)) picks\<rparr>"
  using assms
proof (induction picks arbitrary: st)
  case Nil
  then show ?case by (simp add: run_def)
next
  case (Cons i picks)
  let ?st1 = "st\<lparr>selectedOptions := selectedOptions st @ [data_number (controls st ! i)]\<rparr>"
  have one: "click st (Checkbox i) = ?st1"
    using Cons.prems by (simp add: setAdd_def)
  have "run ?st1 (map (\<lambda>i. Click (Checkbox i)) picks) =
      ?st1\<lparr>selectedOptions :=
              selectedOptions ?st1 @ map (\<lambda>i. data_number (controls ?st1 ! i)) picks\<rparr>"
    using Cons.prems by (intro Cons.IH) auto
  with one show ?case by (simp add: run_def)
qed

text \<open>
  How one run of the click listener changes the selection set: members are
  appended behind the old ones, or members are taken out and the others keep
  their order.
\<close>

lemma setAdd_order:
  "\<exists>added. setAdd xs x = xs @ added \<and> set added \<inter> set xs = {}"
proof (cases "x \<in> set xs")
  case True
  then show ?thesis by (intro exI [of _ "[]"]) (simp add: setAdd_def)
next
  case False
  then show ?thesis by (intro exI [of _ "[x]"]) (simp add: setAdd_def)
qed

lemma setDelete_filter: "setDelete xs x = filter (\<lambda>y. y \<noteq> x) xs"
  unfolding setDelete_def by (induction xs) simp_all

lemma foldl_setAdd_order:
  "\<exists>added. foldl (\<lambda>selected c. setAdd selected (data_number c)) xs cs = xs @ added
     \<and> set added \<inter> set xs = {}"
proof (induction cs arbitrary: xs)
  case Nil
  show ?case by (intro exI [of _ "[]"]) simp
next
  case (Cons c cs)
  from setAdd_order [of xs "data_number c"] obtain a1 where
    a1: "setAdd xs (data_number c) = xs @ a1" "set a1 \<inter> set xs = {}" by auto
  from Cons.IH [of "xs @ a1"] obtain a2 where
    a2: "foldl (\<lambda>selected c. setAdd selected (data_number c)) (xs @ a1) cs = (xs @ a1) @ a2"
      "set a2 \<inter> set (xs @ a1) = {}" by auto
  have "foldl (\<lambda>selected c. setAdd selected (data_number c)) xs (c # cs) = xs @ (a1 @ a2)"
    using a1(1) a2(1) by simp
  moreover have "set (a1 @ a2) \<inter> set xs = {}"
    using a1(2) a2(2) by auto
  ultimately show ?case by (intro exI [of _ "a1 @ a2"]) simp
qed

lemma foldl_setDelete_filter:
  "foldl (\<lambda>selected c. setDelete selected (data_number c)) xs cs =
     filter (\<lambda>y. y \<notin> data_number ` set cs) xs"
proof (induction cs arbitrary: xs)
  case Nil
  then show ?case by simp
next
  case (Cons c cs)
  have "foldl (\<lambda>selected c. setDelete selected (data_number c)) xs (c # cs) =
      filter (\<lambda>y. y \<notin> data_number ` set cs) (setDelete xs (data_number c))"
    by (simp only: foldl.simps Cons.IH)
  also have "\<dots> =
      filter (\<lambda>y. y \<notin> data_number ` set cs) (filter (\<lambda>y. y \<noteq> data_number c) xs)"
    by (simp only: setDelete_filter)
  also have "\<dots> = filter (\<lambda>y. y \<notin> data_number ` set (c # cs)) xs"
    unfolding filter_filter by (rule filter_cong) auto
  finally show ?case .
qed

lemma appended_order:
  assumes "new = old @ added" "set added \<inter> set old = {}"
  shows "\<exists>added. new = filter (\<lambda>x. x \<in> set new) old @ added \<and> set added \<inter> set old = {}"
proof -
  have "filter (\<lambda>x. x \<in> set new) old = old"
    using assms(1) by (simp add: filter_id_conv)
  with assms show ?thesis by (intro exI [of _ added]) simp
qed

lemma filtered_order:
  assumes "new = filter P old"
  shows "\<exists>added. new = filter (\<lambda>x. x \<in> set new) old @ added \<and> set added \<inter> set old = {}"
proof -
  have "filter (\<lambda>x. x \<in> set new) old = filter P old"
    unfolding assms by (rule filter_cong) auto
  with assms show ?thesis by (intro exI [of _ "[]"]) simp
qed

lemma unchanged_order:
  assumes "new = old"
  shows "\<exists>added. new = filter (\<lambda>x. x \<in> set new) old @ added \<and> set added \<inter> set old = {}"
proof -
  from assms have "new = filter (\<lambda>y. True) old" by simp
  then show ?thesis by (rule filtered_order)
qed

lemma toggle_order:
  "\<exists>added. (if b then setAdd old x else setDelete old x) =
      filter (\<lambda>y. y \<in> set (if b then setAdd old x else setDelete old x)) old @ added
    \<and> set added \<inter> set old = {}"
proof (cases b)
  case True
  from setAdd_order [of old x] obtain added where
    "setAdd old x = old @ added" "set added \<inter> set old = {}" by auto
  from appended_order [OF this] show ?thesis using True by simp
next
  case False
  have "setDelete old x = filter (\<lambda>y. y \<noteq> x) old" by (rule setDelete_filter)
  from filtered_order [OF this] show ?thesis using False by simp
qed

lemma click_keeps_order:
  "\<exists>added. selectedOptions (click st target) =
      filter (\<lambda>x. x \<in> set (selectedOptions (click st target))) (selectedOptions st) @ added
    \<and> set added \<inter> set (selectedOptions st) = {}"
proof (cases target)
  case (Checkbox i)
  show ?thesis
  proof (cases "i < length (controls st)")
    case True
    with Checkbox have "selectedOptions (click st target) =
        (if \<not> checked (controls st ! i)
         then setAdd (selectedOptions st) (data_number (controls st ! i))
         else setDelete (selectedOptions st) (data_number (controls st ! i)))"
      by (simp add: Let_def)
    with toggle_order [of "\<not> checked (controls st ! i)" "selectedOptions st"
        "data_number (controls st ! i)"]
    show ?thesis by simp
  next
    case False
    with Checkbox have "selectedOptions (click st target) = selectedOptions st" by simp
    then show ?thesis by (rule unchanged_order)
  qed
next
  case SelectAll
  show ?thesis
  proof (cases "list_all checked (controls st)")
    case True
    then have "selectedOptions (click st target) =
        filter (\<lambda>y. y \<notin> data_number ` set (controls st)) (selectedOptions st)"
      using SelectAll by (simp add: foldl_setDelete_filter)
    then show ?thesis by (rule filtered_order)
  next
    case False
    from foldl_setAdd_order [of "selectedOptions st" "controls st"] obtain added where
      "foldl (\<lambda>selected c. setAdd selected (data_number c)) (selectedOptions st) (controls st)
         = selectedOptions st @ added"
      "set added \<inter> set (selectedOptions st) = {}" by auto
    with False SelectAll have
      "selectedOptions (click st target) = selectedOptions st @ added"
      "set added \<inter> set (selectedOptions st) = {}"
      by simp_all
    then show ?thesis by (rule appended_order)
  qed
next
  case SubmitSelection
  show ?thesis
  proof (cases "selectedOptions st = []")
    case True
    with SubmitSelection have "selectedOptions (click st target) = selectedOptions st" by simp
    then show ?thesis by (rule unchanged_order)
  next
    case False
    with SubmitSelection have
      "selectedOptions (click st target) = filter (\<lambda>y. False) (selectedOptions st)"
      by (simp add: Let_def sendMessage_def addUserMessage_def)
    then show ?thesis by (rule filtered_order)
  qed
next
  case (OptionBody i)
  show ?thesis
  proof (cases "i < length (controls st)")
    case True
    with OptionBody have "selectedOptions (click st target) =
        (if \<not> checked (controls st ! i)
         then setAdd (selectedOptions st) (data_number (controls st ! i))
         else setDelete (selectedOptions st) (data_number (controls st ! i)))"
      by (simp add: Let_def)
    with toggle_order [of "\<not> checked (controls st ! i)" "selectedOptions st"
        "data_number (controls st ! i)"]
    show ?thesis by simp
  next
    case False
    with OptionBody have "selectedOptions (click st target) = selectedOptions st" by simp
    then show ?thesis by (rule unchanged_order)
  qed
next
  case Elsewhere
  then have "selectedOptions (click st target) = selectedOptions st" by simp
  then show ?thesis by (rule unchanged_order)
qed

text \<open>
  A run of \<^verbatim>\<open>add\<close> calls appends the ids that are not yet members, each
  once, in the order of their first occurrence.
\<close>

lemma set_first_new: "set (rev (remdups (rev (filter (\<lambda>x. x \<notin> set old) ids)))) = set ids - set old"
  by auto

lemma first_new_snoc:
  "rev (remdups (rev (filter (\<lambda>x. x \<notin> set old) (ids @ [x])))) =
     (if x \<in> set old \<or> x \<in> set ids then rev (remdups (rev (filter (\<lambda>x. x \<notin> set old) ids))) else rev (remdups (rev (filter (\<lambda>x. x \<notin> set old) ids))) @ [x])"
  by auto

lemma foldl_setAdd_exact:
  "foldl setAdd old ids = old @ rev (remdups (rev (filter (\<lambda>x. x \<notin> set old) ids)))"
proof (induction ids rule: rev_induct)
  case Nil
  show ?case by simp
next
  case (snoc x ids)
  have "foldl setAdd old (ids @ [x]) = setAdd (old @ rev (remdups (rev (filter (\<lambda>x. x \<notin> set old) ids)))) x"
    by (simp add: snoc.IH)
  also have "\<dots> = old @ rev (remdups (rev (filter (\<lambda>x. x \<notin> set old) (ids @ [x]))))"
    by (simp add: setAdd_def set_first_new first_new_snoc)
  finally show ?case .
qed

lemma foldl_setAdd_controls:
  "foldl (\<lambda>selected c. setAdd selected (data_number c)) old cs =
     old @ rev (remdups (rev (filter (\<lambda>x. x \<notin> set old) (map data_number cs))))"
proof -
  have "foldl (\<lambda>selected c. setAdd selected (data_number c)) old cs =
      foldl setAdd old (map data_number cs)"
    by (simp add: foldl_map)
  then show ?thesis by (simp only: foldl_setAdd_exact)
qed

lemma toggle_exact:
  "i < length (controls st) \<Longrightarrow>
   selectedOptions (click st (Checkbox i)) =
     (if checked (controls st ! i)
      then filter (\<lambda>y. y \<noteq> data_number (controls st ! i)) (selectedOptions st)
      else if data_number (controls st ! i) \<in> set (selectedOptions st) then selectedOptions st
      else selectedOptions st @ [data_number (controls st ! i)])"
  "i < length (controls st) \<Longrightarrow>
   selectedOptions (click st (OptionBody i)) =
     (if checked (controls st ! i)
      then filter (\<lambda>y. y \<noteq> data_number (controls st ! i)) (selectedOptions st)
      else if data_number (controls st ! i) \<in> set (selectedOptions st) then selectedOptions st
      else selectedOptions st @ [data_number (controls st ! i)])"
  by (simp_all add: Let_def setAdd_def setDelete_filter)

lemma select_all_exact:
  "selectedOptions (click st SelectAll) =
     (if list_all checked (controls st)
      then filter (\<lambda>y. y \<notin> data_number ` set (controls st)) (selectedOptions st)
      else selectedOptions st
           @ rev (remdups (rev (filter (\<lambda>x. x \<notin> set (selectedOptions st)) (map data_number (controls st))))))"
  by (simp add: foldl_setDelete_filter foldl_setAdd_controls)

text \<open>
  An id that is taken out and put in again comes last: with nothing selected,
  option \<open>a\<close> is checked, then option \<open>b\<close>, then \<open>a\<close> is unchecked and
  checked again.
\<close>

lemma readd_last:
  assumes "a < length (controls st)" "b < length (controls st)"
    "\<not> checked (controls st ! a)" "\<not> checked (controls st ! b)"
    "data_number (controls st ! a) \<noteq> data_number (controls st ! b)"
    "selectedOptions st = []"
  shows "requests (run st [Click (OptionBody a), Click (OptionBody b), Click (OptionBody a),
            Click (OptionBody a), Click SubmitSelection]) =
     requests st
     @ [PostMessage (data_number (controls st ! b) @ '' and '' @ data_number (controls st ! a))]"
proof -
  from assms(5) have ne: "a \<noteq> b" by auto
  let ?n = "\<lambda>i. data_number (controls st ! i)"
  let ?s1 = "click st (OptionBody a)"
  have s1: "selectedOptions ?s1 = [?n a]" "length (controls ?s1) = length (controls st)"
    "checked (controls ?s1 ! a)" "\<not> checked (controls ?s1 ! b)"
    "data_number (controls ?s1 ! a) = ?n a" "data_number (controls ?s1 ! b) = ?n b"
    "requests ?s1 = requests st"
    using assms ne by (simp_all add: Let_def setAdd_def)
  let ?s2 = "click ?s1 (OptionBody b)"
  have s2: "selectedOptions ?s2 = [?n a, ?n b]" "length (controls ?s2) = length (controls st)"
    "checked (controls ?s2 ! a)"
    "data_number (controls ?s2 ! a) = ?n a"
    "requests ?s2 = requests st"
    using s1 assms(1,2,5) ne by (simp_all add: toggle_exact(2) Let_def del: click.simps) (simp_all add: Let_def)
  let ?s3 = "click ?s2 (OptionBody a)"
  have s3: "selectedOptions ?s3 = [?n b]" "length (controls ?s3) = length (controls st)"
    "\<not> checked (controls ?s3 ! a)"
    "data_number (controls ?s3 ! a) = ?n a"
    "requests ?s3 = requests st"
    using s2 assms(1,5) by (simp_all add: toggle_exact(2) del: click.simps) (simp_all add: Let_def)
  let ?s4 = "click ?s3 (OptionBody a)"
  have s4: "selectedOptions ?s4 = [?n b, ?n a]" "requests ?s4 = requests st"
    using s3 assms(1,5) by (simp_all add: toggle_exact(2) del: click.simps) (simp_all add: Let_def)
  have "requests (click ?s4 SubmitSelection) =
      requests st @ [PostMessage (?n b @ '' and '' @ ?n a)]"
    using s4 by (simp add: Let_def sendMessage_def addUserMessage_def)
  then show ?thesis by (simp add: run_def del: click.simps)
qed

text \<open>
  Claim C10. Confirm sends the members of the selection set in the order in
  which the set holds them, and that is the order of their latest insertion.
  A click on the checkbox or on the body of an option whose box is checked
  takes its id out of the set; on an option whose box is not checked it puts
  the id behind all members, unless the id is a member already. Select-all
  takes the ids of all options out when every box is checked, and otherwise
  puts the missing ids of the options behind all members, in document order.
  Whatever is clicked, the members that stay keep their order. So, starting
  from an empty set, checking the options \<open>picks\<close> one after the other
  (different ids, none checked before) and confirming sends their ids in the
  order of the clicks; and checking \<open>a\<close>, checking \<open>b\<close>, unchecking
  \<open>a\<close> and checking it again sends the id of \<open>b\<close> before the id of
  \<open>a\<close>.
\<close>

theorem confirm_order:
  "(selectedOptions st \<noteq> [] \<longrightarrow>
      requests (click st SubmitSelection) =
        requests st @ [PostMessage (join (selectedOptions st) '' and '')])
   \<and> (\<exists>added.
         selectedOptions (click st target) =
           filter (\<lambda>x. x \<in> set (selectedOptions (click st target))) (selectedOptions st)
           @ added
         \<and> set added \<inter> set (selectedOptions st) = {})
   \<and> (i < length (controls st) \<longrightarrow>
        selectedOptions (click st (Checkbox i)) =
          (if checked (controls st ! i)
           then filter (\<lambda>y. y \<noteq> data_number (controls st ! i)) (selectedOptions st)
           else if data_number (controls st ! i) \<in> set (selectedOptions st)
             then selectedOptions st
             else selectedOptions st @ [data_number (controls st ! i)])
        \<and> selectedOptions (click st (OptionBody i)) =
          (if checked (controls st ! i)
           then filter (\<lambda>y. y \<noteq> data_number (controls st ! i)) (selectedOptions st)
           else if data_number (controls st ! i) \<in> set (selectedOptions st)
             then selectedOptions st
             else selectedOptions st @ [data_number (controls st ! i)]))
   \<and> selectedOptions (click st SelectAll) =
        (if list_all checked (controls st)
         then filter (\<lambda>y. y \<notin> data_number ` set (controls st)) (selectedOptions st)
         else selectedOptions st
              @ rev (remdups (rev (filter (\<lambda>x. x \<notin> set (selectedOptions st))
                                      (map data_number (controls st))))))
   \<and> ((\<forall>i \<in> set picks. i < length (controls st) \<and> \<not> checked (controls st ! i)) \<longrightarrow>
        distinct (map (\<lambda>i. data_number (controls st ! i)) picks) \<longrightarrow>
        selectedOptions st = [] \<longrightarrow> picks \<noteq> [] \<longrightarrow>
        requests (run st (map (\<lambda>i. Click (Checkbox i)) picks @ [Click SubmitSelection])) =
          requests st
          @ [PostMessage (join (map (\<lambda>i. data_number (controls st ! i)) picks) '' and '')])
   \<and> (a < length (controls st) \<longrightarrow> b < length (controls st) \<longrightarrow>
        \<not> checked (controls st ! a) \<longrightarrow> \<not> checked (controls st ! b) \<longrightarrow>
        data_number (controls st ! a) \<noteq> data_number (controls st ! b) \<longrightarrow>
        selectedOptions st = [] \<longrightarrow>
        requests (run st [Click (OptionBody a), Click (OptionBody b), Click (OptionBody a),
                   Click (OptionBody a), Click SubmitSelection]) =
          requests st
          @ [PostMessage (data_number (controls st ! b) @ '' and ''
                          @ data_number (controls st ! a))])"
proof (intro conjI impI)
  assume "selectedOptions st \<noteq> []"
  then show "requests (click st SubmitSelection) =
        requests st @ [PostMessage (join (selectedOptions st) '' and '')]"
    by (simp add: Let_def sendMessage_def addUserMessage_def)
next
  show "\<exists>added.
         selectedOptions (click st target) =
           filter (\<lambda>x. x \<in> set (selectedOptions (click st target))) (selectedOptions st)
           @ added
         \<and> set added \<inter> set (selectedOptions st) = {}"
    by (rule click_keeps_order)
next
  assume "i < length (controls st)"
  then show "selectedOptions (click st (Checkbox i)) =
          (if checked (controls st ! i)
           then filter (\<lambda>y. y \<noteq> data_number (controls st ! i)) (selectedOptions st)
           else if data_number (controls st ! i) \<in> set (selectedOptions st)
             then selectedOptions st
             else selectedOptions st @ [data_number (controls st ! i)])"
    by (rule toggle_exact(1))
next
  assume "i < length (controls st)"
  then show "selectedOptions (click st (OptionBody i)) =
          (if checked (controls st ! i)
           then filter (\<lambda>y. y \<noteq> data_number (controls st ! i)) (selectedOptions st)
           else if data_number (controls st ! i) \<in> set (selectedOptions st)
             then selectedOptions st
             else selectedOptions st @ [data_number (controls st ! i)])"
    by (rule toggle_exact(2))
next
  show "selectedOptions (click st SelectAll) =
        (if list_all checked (controls st)
         then filter (\<lambda>y. y \<notin> data_number ` set (controls st)) (selectedOptions st)
         else selectedOptions st
              @ rev (remdups (rev (filter (\<lambda>x. x \<notin> set (selectedOptions st))
                                      (map data_number (controls st))))))"
    by (rule select_all_exact)
next
  assume p: "\<forall>i \<in> set picks. i < length (controls st) \<and> \<not> checked (controls st ! i)"
    "distinct (map (\<lambda>i. data_number (controls st ! i)) picks)"
    "selectedOptions st = []" "picks \<noteq> []"
  have "run st (map (\<lambda>i. Click (Checkbox i)) picks) =
     st\<lparr>selectedOptions := map (\<lambda>i. data_number (controls st ! i)) picks\<rparr>"
    using run_checkbox_clicks [OF p(1,2)] p(3) by simp
  then show "requests (run st (map (\<lambda>i. Click (Checkbox i)) picks @ [Click SubmitSelection])) =
          requests st
          @ [PostMessage (join (map (\<lambda>i. data_number (controls st ! i)) picks) '' and '')]"
    using p(4) by (simp add: run_def Let_def sendMessage_def addUserMessage_def)
next
  assume "a < length (controls st)" "b < length (controls st)"
    "\<not> checked (controls st ! a)" "\<not> checked (controls st ! b)"
    "data_number (controls st ! a) \<noteq> data_number (controls st ! b)"
    "selectedOptions st = []"
  then show "requests (run st [Click (OptionBody a), Click (OptionBody b), Click (OptionBody a),
                   Click (OptionBody a), Click SubmitSelection]) =
          requests st
          @ [PostMessage (data_number (controls st ! b) @ '' and ''
                          @ data_number (controls st ! a))]"
    by (rule readd_last)
qed

text \<open>
  Claim C10 on the page that shows the two-option prompt. Option 2 is checked
  before option 1, and confirm sends \<^verbatim>\<open>2 and 1\<close>. Option 1 is checked,
  option 2 is checked, option 1 is unchecked and checked again, and confirm
  sends \<^verbatim>\<open>2 and 1\<close>. A click on the checked option 1 takes its id out
  of the set, and select-all puts both ids in, in document order.
\<close>

theorem confirm_order_witness:
  "list_all (\<lambda>i. i < length (controls twoOptionPage) \<and> \<not> checked (controls twoOptionPage ! i))
     [1, 0]
   \<and> distinct (map (\<lambda>i. data_number (controls twoOptionPage ! i)) [1, 0])
   \<and> selectedOptions twoOptionPage = []
   \<and> requests (run twoOptionPage
        [Click (Checkbox 1), Click (Checkbox 0), Click SubmitSelection]) =
       [PostMessage ''2 and 1'']
   \<and> requests (run twoOptionPage
        [Click (OptionBody 0), Click (OptionBody 1), Click (OptionBody 0),
         Click (OptionBody 0), Click SubmitSelection]) =
       [PostMessage ''2 and 1'']
   \<and> selectedOptions (click twoOptionPage (Checkbox 1)) = [''2'']
   \<and> checked (controls (run twoOptionPage [Click (OptionBody 0), Click (OptionBody 1)]) ! 0)
   \<and> selectedOptions (run twoOptionPage [Click (OptionBody 0), Click (OptionBody 1)]) =
       [''1'', ''2'']
   \<and> selectedOptions (click (run twoOptionPage [Click (OptionBody 0), Click (OptionBody 1)])
        (OptionBody 0)) = [''2'']
   \<and> requests (click (run twoOptionPage [Click (OptionBody 0), Click (OptionBody 1)])
        SubmitSelection) = [PostMessage ''1 and 2'']
   \<and> selectedOptions (click twoOptionPage SelectAll) = [''1'', ''2'']"
proof -
  define s where "s = run twoOptionPage [Click (OptionBody 0), Click (OptionBody 1)]"
  have c: "controls twoOptionPage =
       [\<lparr>data_number = ''1'', checked = False\<rparr>, \<lparr>data_number = ''2'', checked = False\<rparr>]"
    by code_simp
  have h1: "\<forall>i \<in> set [1, 0]. i < length (controls twoOptionPage)
       \<and> \<not> checked (controls twoOptionPage ! i)"
    by (simp add: c)
  have h2: "distinct (map (\<lambda>i. data_number (controls twoOptionPage ! i)) [1, 0])"
    by (simp add: c)
  have h3: "selectedOptions twoOptionPage = []" by code_simp
  have r: "requests twoOptionPage = []" by code_simp
  have sc: "controls s =
       [\<lparr>data_number = ''1'', checked = True\<rparr>, \<lparr>data_number = ''2'', checked = True\<rparr>]"
    unfolding s_def by code_simp
  have ss: "selectedOptions s = [''1'', ''2'']" unfolding s_def by code_simp
  have sr: "requests s = []" unfolding s_def by code_simp
  note t = confirm_order [where st = twoOptionPage and picks = "[1, 0]" and i = 1
      and a = 0 and b = 1]
  note u = confirm_order [where st = s and i = 0 and target = Elsewhere
      and picks = "[]" and a = 0 and b = 0]
  from t h1 h2 h3 have w1:
    "requests (run twoOptionPage
        [Click (Checkbox 1), Click (Checkbox 0), Click SubmitSelection]) =
       [PostMessage ''2 and 1'']"
    by (simp add: c r)
  from t h3 have w2:
    "requests (run twoOptionPage
        [Click (OptionBody 0), Click (OptionBody 1), Click (OptionBody 0),
         Click (OptionBody 0), Click SubmitSelection]) =
       [PostMessage ''2 and 1'']"
    by (simp add: c r)
  from t h3 have w3: "selectedOptions (click twoOptionPage (Checkbox 1)) = [''2'']"
    by (simp add: c)
  from t h3 have w4: "selectedOptions (click twoOptionPage SelectAll) = [''1'', ''2'']"
    by (simp add: c)
  from u have "0 < length (controls s) \<longrightarrow>
      selectedOptions (click s (Checkbox 0)) =
        (if checked (controls s ! 0)
         then filter (\<lambda>y. y \<noteq> data_number (controls s ! 0)) (selectedOptions s)
         else if data_number (controls s ! 0) \<in> set (selectedOptions s)
           then selectedOptions s
           else selectedOptions s @ [data_number (controls s ! 0)])
      \<and> selectedOptions (click s (OptionBody 0)) =
        (if checked (controls s ! 0)
         then filter (\<lambda>y. y \<noteq> data_number (controls s ! 0)) (selectedOptions s)
         else if data_number (controls s ! 0) \<in> set (selectedOptions s)
           then selectedOptions s
           else selectedOptions s @ [data_number (controls s ! 0)])"
    by (elim conjE) assumption
  then have w5: "selectedOptions (click s (OptionBody 0)) = [''2'']"
    by (simp add: sc ss del: click.simps)
  from u have "selectedOptions s \<noteq> [] \<longrightarrow>
      requests (click s SubmitSelection) =
        requests s @ [PostMessage (join (selectedOptions s) '' and '')]"
    by (elim conjE) assumption
  then have w6: "requests (click s SubmitSelection) = [PostMessage ''1 and 2'']"
    by (simp add: ss sr del: click.simps)
  have w7: "checked (controls s ! 0)" by (simp add: sc)
  from h1 h2 h3 w1 w2 w3 w4 w5 [unfolded s_def] w6 [unfolded s_def] w7 [unfolded s_def]
    ss [unfolded s_def]
  show ?thesis
    unfolding list_all_iff by (simp del: click.simps)
qed

section \<open>Select all\<close>

lemma set_setAdd: "set (setAdd xs x) = insert x (set xs)"
  by (auto simp: setAdd_def)

lemma set_setDelete: "set (setDelete xs x) = set xs - {x}"
  by (auto simp: setDelete_def)

lemma set_foldl_setAdd:
  "set (foldl (\<lambda>selected c. setAdd selected (data_number c)) sel cs) =
     set sel \<union> data_number ` set cs"
  by (induction cs arbitrary: sel) (auto simp: set_setAdd)

lemma set_foldl_setDelete:
  "set (foldl (\<lambda>selected c. setDelete selected (data_number c)) sel cs) =
     set sel - data_number ` set cs"
  by (induction cs arbitrary: sel) (auto simp: set_setDelete)

lemma select_all_unchecked:
  assumes "\<not> list_all checked (controls st)"
  shows "list_all checked (controls (click st SelectAll))"
    and "map data_number (controls (click st SelectAll)) = map data_number (controls st)"
    and "set (selectedOptions (click st SelectAll)) =
           set (selectedOptions st) \<union> data_number ` set (controls st)"
  using assms by (simp_all add: list_all_iff set_foldl_setAdd o_def)

lemma select_all_checked:
  assumes "list_all checked (controls st)"
  shows "list_all (\<lambda>c. \<not> checked c) (controls (click st SelectAll))"
    and "map data_number (controls (click st SelectAll)) = map data_number (controls st)"
    and "set (selectedOptions (click st SelectAll)) =
           set (selectedOptions st) - data_number ` set (controls st)"
  using assms by (simp_all add: list_all_iff set_foldl_setDelete o_def)

lemma select_all_twice:
  assumes "list_all (\<lambda>c. \<not> checked c) (controls st)"
  shows "controls (click (click st SelectAll) SelectAll) = controls st"
    and "set (selectedOptions (click (click st SelectAll) SelectAll)) =
           set (selectedOptions st) - data_number ` set (controls st)"
proof -
  show "controls (click (click st SelectAll) SelectAll) = controls st"
  proof (cases "controls st = []")
    case True
    then show ?thesis by simp
  next
    case False
    with assms have n: "\<not> list_all checked (controls st)"
      by (cases "controls st") auto
    from select_all_unchecked(1) [OF n]
    have "controls (click (click st SelectAll) SelectAll) =
        map (\<lambda>c. c\<lparr>checked := False\<rparr>) (controls (click st SelectAll))"
      by simp
    also have "\<dots> = map (\<lambda>c. c\<lparr>checked := False\<rparr>) (controls st)"
      by (simp add: o_def Let_def)
    also have "\<dots> = controls st"
      using assms by (simp add: list_all_iff map_idI)
    finally show ?thesis .
  qed
  show "set (selectedOptions (click (click st SelectAll) SelectAll)) =
           set (selectedOptions st) - data_number ` set (controls st)"
  proof (cases "list_all checked (controls st)")
    case True
    with assms have "controls st = []" by (cases "controls st") auto
    then show ?thesis by simp
  next
    case False
    from select_all_unchecked [OF False] have
      a: "list_all checked (controls (click st SelectAll))" and
      m: "map data_number (controls (click st SelectAll)) = map data_number (controls st)" and
      s: "set (selectedOptions (click st SelectAll)) =
           set (selectedOptions st) \<union> data_number ` set (controls st)"
      by blast+
    from m have i: "data_number ` set (controls (click st SelectAll)) =
        data_number ` set (controls st)"
      by (metis set_map)
    from select_all_checked(3) [OF a] s i show ?thesis by auto
  qed
qed

lemma click_SelectAll_other:
  "click st SelectAll = st\<lparr>controls := controls (click st SelectAll),
       selectedOptions := selectedOptions (click st SelectAll)\<rparr>"
  by (simp add: Let_def)

text \<open>
  Claim C5. When some rendered checkbox is not checked, select-all checks
  every one and puts every option id into the selection set. When all are
  checked it unchecks every one and takes every option id out of the set.
  So from a page with no box checked, two clicks in a row leave every box
  unchecked and no option id in the set: with an empty set before, the page
  is back in the state it was in.
\<close>

theorem select_all_toggle:
  "(\<not> list_all checked (controls st) \<longrightarrow>
      list_all checked (controls (click st SelectAll))
      \<and> map data_number (controls (click st SelectAll)) = map data_number (controls st)
      \<and> set (selectedOptions (click st SelectAll)) =
           set (selectedOptions st) \<union> data_number ` set (controls st))
   \<and> (list_all checked (controls st) \<longrightarrow>
      list_all (\<lambda>c. \<not> checked c) (controls (click st SelectAll))
      \<and> map data_number (controls (click st SelectAll)) = map data_number (controls st)
      \<and> set (selectedOptions (click st SelectAll)) =
           set (selectedOptions st) - data_number ` set (controls st))
   \<and> (list_all (\<lambda>c. \<not> checked c) (controls st) \<longrightarrow>
      controls (click (click st SelectAll) SelectAll) = controls st
      \<and> set (selectedOptions (click (click st SelectAll) SelectAll)) =
           set (selectedOptions st) - data_number ` set (controls st)
      \<and> (selectedOptions st = [] \<longrightarrow> click (click st SelectAll) SelectAll = st))"
proof (intro conjI impI)
  assume none: "list_all (\<lambda>c. \<not> checked c) (controls st)" and empty: "selectedOptions st = []"
  have "click (click st SelectAll) SelectAll =
      (click st SelectAll)\<lparr>controls := controls (click (click st SelectAll) SelectAll),
        selectedOptions := selectedOptions (click (click st SelectAll) SelectAll)\<rparr>"
    by (rule click_SelectAll_other)
  also have "\<dots> = st\<lparr>controls := controls (click (click st SelectAll) SelectAll),
        selectedOptions := selectedOptions (click (click st SelectAll) SelectAll)\<rparr>"
    by (simp add: Let_def)
  also have "selectedOptions (click (click st SelectAll) SelectAll) = []"
    using select_all_twice(2) [OF none] empty by simp
  also have "controls (click (click st SelectAll) SelectAll) = controls st"
    by (rule select_all_twice(1) [OF none])
  finally show "click (click st SelectAll) SelectAll = st" using empty by simp
qed (simp_all add: select_all_unchecked select_all_checked select_all_twice del: click.simps)

text \<open>
  Claim C5 on the page that shows the two-option prompt: the first click
  checks both options and selects 1 and 2, the second click, on the page with
  all boxes checked, undoes it.
\<close>

theorem select_all_toggle_witness:
  "\<not> list_all checked (controls twoOptionPage)
   \<and> list_all (\<lambda>c. \<not> checked c) (controls twoOptionPage)
   \<and> selectedOptions twoOptionPage = []
   \<and> list_all checked (controls (click twoOptionPage SelectAll))
   \<and> set (selectedOptions (click twoOptionPage SelectAll)) = {''1'', ''2''}
   \<and> list_all (\<lambda>c. \<not> checked c) (controls (click (click twoOptionPage SelectAll) SelectAll))
   \<and> click (click twoOptionPage SelectAll) SelectAll = twoOptionPage"
proof -
  have c: "controls twoOptionPage =
       [\<lparr>data_number = ''1'', checked = False\<rparr>, \<lparr>data_number = ''2'', checked = False\<rparr>]"
    by code_simp
  have h1: "\<not> list_all checked (controls twoOptionPage)" by (simp add: c)
  have h2: "list_all (\<lambda>c. \<not> checked c) (controls twoOptionPage)" by (simp add: c)
  have h3: "selectedOptions twoOptionPage = []" by code_simp
  from select_all_toggle [of twoOptionPage] h1 have
    a: "list_all checked (controls (click twoOptionPage SelectAll))" and
    s: "set (selectedOptions (click twoOptionPage SelectAll)) =
          set (selectedOptions twoOptionPage) \<union> data_number ` set (controls twoOptionPage)"
    by blast+
  from select_all_toggle [of "click twoOptionPage SelectAll"] a have
    u: "list_all (\<lambda>c. \<not> checked c) (controls (click (click twoOptionPage SelectAll) SelectAll))"
    by blast
  from select_all_toggle [of twoOptionPage] h2 h3 have
    b: "click (click twoOptionPage SelectAll) SelectAll = twoOptionPage"
    by blast
  from s have "set (selectedOptions (click twoOptionPage SelectAll)) = {''1'', ''2''}"
    by (simp add: h3 c)
  with h1 h2 h3 a u b show ?thesis by blast
qed

section \<open>The selection set and the rendered options\<close>

















section \<open>Failure of the message call\<close>

lemma messageApology_plain:
  "formatEmailSelectionMessage (Some messageApology) = Inr messageApology"
  "renderedControls (Some messageApology) = []"
  by code_simp+

lemma messageCatch_eq:
  "messageCatch st =
     st\<lparr>chat := remove1 TypingIndicator (chat st) @ [BotTurn messageApology]\<rparr>"
  by (simp add: messageCatch_def addBotMessage_def messageApology_plain
      removeTypingIndicator_def)

text \<open>
  Claim C8, as amended. When the call fails on the network, or its body is
  not JSON (whatever the status), the first typing indicator is removed and
  the fixed apology is added as a bot turn; nothing else changes, and no call
  is sent again. The status of a response is never read: a body is handled in
  the same way under any status. A body without a usable \<^verbatim>\<open>response\<close>
  (\<open>None\<close> above) ends in the apology as well, after a second look for a
  typing indicator. A body with a string \<^verbatim>\<open>response\<close> has that response
  rendered, not the apology, under any status.
\<close>

theorem message_failure_recovery:
  "(outcome = NetworkError \<or> outcome = InvalidBody status \<longrightarrow>
      messageSettled st outcome =
        st\<lparr>chat := remove1 TypingIndicator (chat st) @ [BotTurn messageApology]\<rparr>)
   \<and> messageSettled st (Body status data) = messageSettled st (Body 200 data)
   \<and> (response data = None \<longrightarrow>
        messageSettled st (Body status data) =
          st\<lparr>chat := remove1 TypingIndicator (remove1 TypingIndicator (chat st))
                        @ [BotTurn messageApology]\<rparr>)
   \<and> (\<forall>message. response data = Some message \<longrightarrow>
        (\<exists>html. formatEmailSelectionMessage (Some message) = Inr html
           \<and> chat (messageSettled st (Body status data)) =
               remove1 TypingIndicator (chat st) @ [BotTurn html]
           \<and> requests (messageSettled st (Body status data)) = requests st))"
proof (intro conjI impI allI)
  assume "outcome = NetworkError \<or> outcome = InvalidBody status"
  then show "messageSettled st outcome =
        st\<lparr>chat := remove1 TypingIndicator (chat st) @ [BotTurn messageApology]\<rparr>"
    by (auto simp: messageSettled_def messageCatch_eq)
next
  show "messageSettled st (Body status data) = messageSettled st (Body 200 data)"
    by (simp add: messageSettled_def)
next
  assume "response data = None"
  then show "messageSettled st (Body status data) =
          st\<lparr>chat := remove1 TypingIndicator (remove1 TypingIndicator (chat st))
                        @ [BotTurn messageApology]\<rparr>"
    by (simp add: messageSettled_def messageThen_def addBotMessage_def
        formatEmailSelectionMessage_def messageCatch_eq removeTypingIndicator_def)
next
  fix message
  assume r: "response data = Some message"
  obtain html where html: "formatEmailSelectionMessage (Some message) = Inr html"
    using format_no_error by blast
  have "chat (messageSettled st (Body status data)) =
               remove1 TypingIndicator (chat st) @ [BotTurn html]"
    "requests (messageSettled st (Body status data)) = requests st"
    using r html
    by (simp_all add: messageSettled_def messageThen_def addBotMessage_def
        removeTypingIndicator_def updateEntityPanel_def Let_def split: option.splits)
  with html show "\<exists>html. formatEmailSelectionMessage (Some message) = Inr html
           \<and> chat (messageSettled st (Body status data)) =
               remove1 TypingIndicator (chat st) @ [BotTurn html]
           \<and> requests (messageSettled st (Body status data)) = requests st"
    by blast
qed

text \<open>
  The amended claim C8 after the user has sent \<^verbatim>\<open>hi\<close>: a network error and
  a body without a \<^verbatim>\<open>response\<close> both end in the apology, with the one call
  that was sent; a body with a response under status 503 has the response
  rendered.
\<close>

theorem message_failure_recovery_witness:
  "chat (messageSettled (submit initialState ''hi'') NetworkError) =
     [BotTurn welcomeMessage, UserTurn ''hi'', BotTurn messageApology]
   \<and> requests (messageSettled (submit initialState ''hi'') NetworkError) = [PostMessage ''hi'']
   \<and> response \<lparr>response = None, entities = None, complete = False\<rparr> = None
   \<and> chat (messageSettled (submit initialState ''hi'')
        (Body 200 \<lparr>response = None, entities = None, complete = False\<rparr>)) =
     [BotTurn welcomeMessage, UserTurn ''hi'', BotTurn messageApology]
   \<and> response \<lparr>response = Some ''Busy'', entities = None, complete = False\<rparr> = Some ''Busy''
   \<and> chat (messageSettled (submit initialState ''hi'')
        (Body 503 \<lparr>response = Some ''Busy'', entities = None, complete = False\<rparr>)) =
     [BotTurn welcomeMessage, UserTurn ''hi'', BotTurn ''Busy'']"
proof -
  have c: "chat (submit initialState ''hi'') =
      [BotTurn welcomeMessage, UserTurn ''hi'', TypingIndicator]"
    by code_simp
  have r: "requests (submit initialState ''hi'') = [PostMessage ''hi'']"
    by code_simp
  have f: "formatEmailSelectionMessage (Some ''Busy'') = Inr ''Busy''"
    by code_simp
  from message_failure_recovery [of NetworkError 0 "submit initialState ''hi''"] have
    "messageSettled (submit initialState ''hi'') NetworkError =
       (submit initialState ''hi'')
         \<lparr>chat := remove1 TypingIndicator (chat (submit initialState ''hi''))
                  @ [BotTurn messageApology]\<rparr>"
    by blast
  then have a: "chat (messageSettled (submit initialState ''hi'') NetworkError) =
        [BotTurn welcomeMessage, UserTurn ''hi'', BotTurn messageApology]"
      "requests (messageSettled (submit initialState ''hi'') NetworkError) = [PostMessage ''hi'']"
    by (simp_all add: c r)
  from message_failure_recovery
    [of NetworkError 200 "submit initialState ''hi''"
        "\<lparr>response = None, entities = None, complete = False\<rparr>"]
  have b: "chat (messageSettled (submit initialState ''hi'')
        (Body 200 \<lparr>response = None, entities = None, complete = False\<rparr>)) =
     [BotTurn welcomeMessage, UserTurn ''hi'', BotTurn messageApology]"
    by (simp add: c)
  from message_failure_recovery
    [of NetworkError 503 "submit initialState ''hi''"
        "\<lparr>response = Some ''Busy'', entities = None, complete = False\<rparr>"]
  have "\<forall>message.
      response \<lparr>response = Some ''Busy'', entities = None, complete = False\<rparr> = Some message \<longrightarrow>
      (\<exists>html. formatEmailSelectionMessage (Some message) = Inr html
         \<and> chat (messageSettled (submit initialState ''hi'')
               (Body 503 \<lparr>response = Some ''Busy'', entities = None, complete = False\<rparr>)) =
             remove1 TypingIndicator (chat (submit initialState ''hi'')) @ [BotTurn html]
         \<and> requests (messageSettled (submit initialState ''hi'')
               (Body 503 \<lparr>response = Some ''Busy'', entities = None, complete = False\<rparr>)) =
             requests (submit initialState ''hi''))"
    by (elim conjE) assumption
  with f have d: "chat (messageSettled (submit initialState ''hi'')
        (Body 503 \<lparr>response = Some ''Busy'', entities = None, complete = False\<rparr>)) =
     [BotTurn welcomeMessage, UserTurn ''hi'', BotTurn ''Busy'']"
    by (simp add: c)
  from a b d show ?thesis by simp
qed

text \<open>
  Claim C8 as stated fails for a status outside 2xx: the user sends
  \<^verbatim>\<open>hi\<close> and the backend answers with status 500 and a JSON body. The
  response of that body is rendered as a bot turn, and the apology is not.
\<close>

theorem message_failure_counterexample:
  "chat (run initialState [Submit ''hi'',
           MessageSettled (Body 500
             \<lparr>response = Some ''Internal Server Error'', entities = None, complete = False\<rparr>)])
     = [BotTurn welcomeMessage, UserTurn ''hi'', BotTurn ''Internal Server Error'']
   \<and> BotTurn messageApology \<notin> set (chat (run initialState [Submit ''hi'',
           MessageSettled (Body 500
             \<lparr>response = Some ''Internal Server Error'', entities = None, complete = False\<rparr>)]))"
  by code_simp

end
